theory Spec2Isabelle
  imports Main "HOL-Library.AList"
begin

section \<open>JavaScript values\<close>

text \<open>
  The fragment of JavaScript values that the strategy handles: the option object given to
  the constructor and the deserialised \<^verbatim>\<open>GetUser\<close> output are trees of
  \<^verbatim>\<open>undefined\<close>, \<^verbatim>\<open>null\<close>, booleans, strings, arrays and plain objects.
  A plain object is the list of its own properties in insertion order. (JavaScript
  enumerates integer-like keys before the others; the statements below about a profile
  speak of its set of keys, their number and their values, not of their order.)
\<close>

datatype jsval =
    Undefined
  | Null
  | Bool bool
  | Str string
  | Arr "jsval list"
  | Obj "(string \<times> jsval) list"

text \<open>
  Errors are values of their own: the \<^verbatim>\<open>TypeError\<close> that the language raises, and
  \<open>Failure m\<close> for an error object raised by a collaborator (a rejection of the SDK
  call, an exception of the application's callback), told apart by its message. What is
  raised or rejected is always an error object, never \<^verbatim>\<open>null\<close> or \<^verbatim>\<open>undefined\<close>.
\<close>

datatype error = TypeError | Failure string

text \<open>
  The conversion to a string that a template literal and a computed property key apply.
  A plain object is converted by its \<^verbatim>\<open>toString\<close> method: the inherited one gives
  \<^verbatim>\<open>[object Object]\<close>; an own property \<^verbatim>\<open>toString\<close> hides it, and since no value
  of the fragment is a function, the conversion then finds no method that returns a
  primitive and raises a \<^verbatim>\<open>TypeError\<close>. An array joins the strings of its elements
  with commas, \<^verbatim>\<open>undefined\<close> and \<^verbatim>\<open>null\<close> elements giving the empty string, and
  raises where an element does.
\<close>

fun join_comma :: "string list \<Rightarrow> string" where
  "join_comma [] = []"
| "join_comma [s] = s"
| "join_comma (s # t # ss) = s @ '','' @ join_comma (t # ss)"

fun ToString :: "jsval \<Rightarrow> error + string"
  and element_strings :: "jsval list \<Rightarrow> error + string list" where
  "ToString Undefined = Inr ''undefined''"
| "ToString Null = Inr ''null''"
| "ToString (Bool b) = Inr (if b then ''true'' else ''false'')"
| "ToString (Str s) = Inr s"
| "ToString (Arr xs) =
     (case element_strings xs of Inl e \<Rightarrow> Inl e | Inr ss \<Rightarrow> Inr (join_comma ss))"
| "ToString (Obj ps) =
     (if ''toString'' \<in> fst ` set ps then Inl TypeError else Inr ''[object Object]'')"
| "element_strings [] = Inr []"
| "element_strings (x # xs) =
     (case (case x of Undefined \<Rightarrow> Inr [] | Null \<Rightarrow> Inr [] | _ \<Rightarrow> ToString x) of
        Inl e \<Rightarrow> Inl e
      | Inr s \<Rightarrow>
          (case element_strings xs of Inl e \<Rightarrow> Inl e | Inr ss \<Rightarrow> Inr (s # ss)))"

text \<open>The values that \<^verbatim>\<open>!v\<close> treats as false.\<close>

fun falsy :: "jsval \<Rightarrow> bool" where
  "falsy Undefined = True"
| "falsy Null = True"
| "falsy (Bool b) = (\<not> b)"
| "falsy (Str s) = (s = [])"
| "falsy (Arr xs) = False"
| "falsy (Obj ps) = False"

text \<open>
  Property read \<^verbatim>\<open>v.k\<close>. Reading from \<^verbatim>\<open>undefined\<close> or \<^verbatim>\<open>null\<close>
  raises a \<^verbatim>\<open>TypeError\<close>; an object gives its own property, or \<^verbatim>\<open>undefined\<close>
  when it has none. The strategy reads only the names \<^verbatim>\<open>Username\<close>,
  \<^verbatim>\<open>UserAttributes\<close>, \<^verbatim>\<open>Name\<close>, \<^verbatim>\<open>Value\<close> and its six option names,
  none of which a string, an array, a boolean or \<^verbatim>\<open>Object.prototype\<close> defines, so
  every other read gives \<^verbatim>\<open>undefined\<close>.
\<close>

fun Get :: "jsval \<Rightarrow> string \<Rightarrow> error + jsval" where
  "Get Undefined k = Inl TypeError"
| "Get Null k = Inl TypeError"
| "Get (Obj ps) k = Inr (case map_of ps k of None \<Rightarrow> Undefined | Some v \<Rightarrow> v)"
| "Get v k = Inr Undefined"

section \<open>Construction\<close>

text \<open>
  The constructor's first parameter is an object pattern
  \<^verbatim>\<open>{clientDomain, clientID, clientSecret, callbackURL, passReqToCallback, clientRegion}\<close>:
  it reads exactly these six properties of the argument and ignores every other one.
  Destructuring \<^verbatim>\<open>undefined\<close> or \<^verbatim>\<open>null\<close> raises a \<^verbatim>\<open>TypeError\<close>.
\<close>

record params =
  clientDomain :: jsval
  clientID :: jsval
  clientSecret :: jsval
  callbackURL :: jsval
  passReqToCallback :: jsval
  clientRegion :: jsval

definition read_prop :: "jsval \<Rightarrow> string \<Rightarrow> jsval" where
  "read_prop v k = (case Get v k of Inl e \<Rightarrow> Undefined | Inr x \<Rightarrow> x)"

definition destructure :: "jsval \<Rightarrow> error + params" where
  "destructure arg =
     (if arg = Undefined \<or> arg = Null then Inl TypeError
      else Inr \<lparr> clientDomain = read_prop arg ''clientDomain'',
                 clientID = read_prop arg ''clientID'',
                 clientSecret = read_prop arg ''clientSecret'',
                 callbackURL = read_prop arg ''callbackURL'',
                 passReqToCallback = read_prop arg ''passReqToCallback'',
                 clientRegion = read_prop arg ''clientRegion'' \<rparr>)"

text \<open>
  The local \<^verbatim>\<open>options\<close> object handed to the inherited constructor. Its properties
  are evaluated in the order written; each of the two template literals converts the
  domain to a string, and raises where that conversion does.
\<close>

record oauth2_options =
  authorizationURL :: jsval
  opt_clientID :: jsval
  opt_clientSecret :: jsval
  opt_callbackURL :: jsval
  opt_passReqToCallback :: jsval
  tokenURL :: jsval

definition make_options :: "params \<Rightarrow> error + oauth2_options" where
  "make_options p =
     (case ToString (clientDomain p) of
        Inl e \<Rightarrow> Inl e
      | Inr a \<Rightarrow>
          (case ToString (clientDomain p) of
             Inl e \<Rightarrow> Inl e
           | Inr t \<Rightarrow>
               Inr \<lparr> authorizationURL = Str (a @ ''/oauth2/authorize''),
                     opt_clientID = clientID p,
                     opt_clientSecret = clientSecret p,
                     opt_callbackURL = callbackURL p,
                     opt_passReqToCallback = passReqToCallback p,
                     tokenURL = Str (t @ ''/oauth2/token'') \<rparr>))"

text \<open>
  The identity-provider client is a class of the AWS SDK; an instance is identified by the
  configuration it was built from, here the region.
\<close>

datatype cognito_client = CognitoIdentityProviderClient (client_region: jsval)

text \<open>
  A Strategy instance: the state set up by the inherited \<^verbatim>\<open>OAuth2Strategy\<close>
  constructor, and the two fields the constructor assigns itself.
\<close>

record 'b strategy =
  oauth2 :: 'b
  cognitoClient :: cognito_client
  name :: string

text \<open>
  \<^verbatim>\<open>OAuth2Strategy\<close> belongs to the package \<^verbatim>\<open>passport-oauth2\<close>, a dependency.
  The constructor takes it as the parameter \<open>base\<close>: a function of the options and the
  verify callback that raises or returns the inherited state. The statements run in the
  source's order: build \<^verbatim>\<open>options\<close>, call the inherited constructor, create the client,
  set the name.
\<close>

definition Strategy ::
  "(oauth2_options \<Rightarrow> 'v \<Rightarrow> error + 'b) \<Rightarrow> jsval \<Rightarrow> 'v \<Rightarrow> error + 'b strategy" where
  "Strategy base arg verify =
     (case destructure arg of
        Inl e \<Rightarrow> Inl e
      | Inr p \<Rightarrow>
          (case make_options p of
             Inl e \<Rightarrow> Inl e
           | Inr options \<Rightarrow>
               (case base options verify of
                  Inl e \<Rightarrow> Inl e
                | Inr b \<Rightarrow>
                    Inr \<lparr> oauth2 = b,
                          cognitoClient = CognitoIdentityProviderClient (clientRegion p),
                          name = ''cognito-oauth2'' \<rparr>)))"

text \<open>
  For statements about the inherited constructor itself, \<open>base\<close> is instantiated with
  what the \<^verbatim>\<open>passport-oauth2\<close> constructor does with these options. It raises a
  \<^verbatim>\<open>TypeError\<close> when the verify callback, the authorization URL, the token URL or the
  client identifier is missing (falsy), in this order. No session key being among the
  options, it then derives one from the host name of the authorization URL, which it
  parses with Node's \<^verbatim>\<open>url.parse\<close>; that function raises on a value that is not a
  string and on some malformed URLs. \<^verbatim>\<open>url.parse\<close> is the parameter \<open>url_parse\<close>: it
  gives the host name or the error raised. Otherwise the constructor keeps the options and
  the callback. A verify callback is \<open>Some f\<close>, a missing one \<open>None\<close>.
\<close>

definition OAuth2Strategy_call ::
  "(string \<Rightarrow> error + jsval) \<Rightarrow> oauth2_options \<Rightarrow> 'f option \<Rightarrow> error + (oauth2_options \<times> 'f)" where
  "OAuth2Strategy_call url_parse options verify =
     (case verify of
        None \<Rightarrow> Inl TypeError
      | Some f \<Rightarrow>
          if falsy (authorizationURL options) then Inl TypeError
          else if falsy (tokenURL options) then Inl TypeError
          else if falsy (opt_clientID options) then Inl TypeError
          else (case authorizationURL options of
                  Str s \<Rightarrow> (case url_parse s of Inl e \<Rightarrow> Inl e | Inr hostname \<Rightarrow> Inr (options, f))
                | _ \<Rightarrow> Inl TypeError))"

section \<open>Profile retrieval\<close>

text \<open>
  An object created by the strategy: its prototype and its own properties in insertion
  order. An object literal creates it with the prototype \<^verbatim>\<open>Object.prototype\<close>; the
  prototype can become \<^verbatim>\<open>null\<close> or a value of the response (see \<open>Put\<close>).
\<close>

datatype proto = ObjectPrototype | NullPrototype | ValuePrototype jsval

record object =
  prototype :: proto
  properties :: "(string \<times> jsval) list"

definition object_literal :: "(string \<times> jsval) list \<Rightarrow> object" where
  "object_literal ps = \<lparr>prototype = ObjectPrototype, properties = ps\<rparr>"

text \<open>
  Whether an assignment to the key \<^verbatim>\<open>__proto__\<close>, on an object that has no own property
  of that name, reaches the accessor \<^verbatim>\<open>__proto__\<close> of \<^verbatim>\<open>Object.prototype\<close>. It does
  when the prototype chain leads there: directly, through an array, or through a plain
  object of the response that has no own property \<^verbatim>\<open>__proto__\<close> (a deserialised object
  can have one, as a data property, and it then hides the accessor). It does not when the
  prototype is \<^verbatim>\<open>null\<close>.
\<close>

fun reaches_proto_accessor :: "proto \<Rightarrow> bool" where
  "reaches_proto_accessor ObjectPrototype = True"
| "reaches_proto_accessor NullPrototype = False"
| "reaches_proto_accessor (ValuePrototype (Obj ps)) = (''__proto__'' \<notin> fst ` set ps)"
| "reaches_proto_accessor (ValuePrototype v) = True"

text \<open>
  Property assignment \<^verbatim>\<open>o[k] = v\<close> in non-strict code. The property is overwritten in
  place when the object has it and appended otherwise; the inherited properties in reach
  are writable data properties and do not change that. The one exception is the key
  \<^verbatim>\<open>__proto__\<close> while the object has no own property of that name and the accessor is
  in reach: the assignment runs the accessor's setter, which makes an object or
  \<^verbatim>\<open>null\<close> the new prototype, does nothing for any other value, and creates no own
  property. (A value of the response cannot have the new object in its own prototype
  chain, so the setter does not raise.)
\<close>

definition Put :: "object \<Rightarrow> string \<Rightarrow> jsval \<Rightarrow> object" where
  "Put ob k v =
     (if k = ''__proto__'' \<and> ''__proto__'' \<notin> fst ` set (properties ob) \<and>
         reaches_proto_accessor (prototype ob)
      then (case v of
              Obj ps \<Rightarrow> ob\<lparr>prototype := ValuePrototype v\<rparr>
            | Arr xs \<Rightarrow> ob\<lparr>prototype := ValuePrototype v\<rparr>
            | Null \<Rightarrow> ob\<lparr>prototype := NullPrototype\<rparr>
            | _ \<Rightarrow> ob)
      else ob\<lparr>properties := AList.update k v (properties ob)\<rparr>)"

text \<open>
  What \<^verbatim>\<open>for (const x of v)\<close> iterates over: the elements of an array, the
  characters of a string, each a string of its own; every other value of the fragment is
  not iterable.
\<close>

fun iterate :: "jsval \<Rightarrow> error + jsval list" where
  "iterate (Arr xs) = Inr xs"
| "iterate (Str s) = Inr (map (\<lambda>c. Str [c]) s)"
| "iterate v = Inl TypeError"

text \<open>
  The state a call of \<^verbatim>\<open>userProfile\<close> runs in: the Strategy instance
  (\<^verbatim>\<open>this\<close>), the store of the objects created so far (an object's address is its
  index), the invocations of the completion callback in order, and the rejections that no
  handler took.
\<close>

record call =
  call_err :: "error option"
  call_profile :: "nat option"

record 'b world =
  self :: "'b strategy"
  heap :: "object list"
  calls :: "call list"
  unhandled :: "error list"

text \<open>
  The completion callback is application code: given the error (\<open>None\<close> for
  \<^verbatim>\<open>null\<close>), the profile's address (\<open>None\<close> for \<^verbatim>\<open>null\<close>) and the store, it
  returns a value or raises. Each invocation is recorded; what the callback does to the
  application's own state is not part of the model.
\<close>

type_synonym callback = "error option \<Rightarrow> nat option \<Rightarrow> object list \<Rightarrow> error + jsval"

definition invoke ::
  "callback \<Rightarrow> error option \<Rightarrow> nat option \<Rightarrow> 'b world \<Rightarrow> (error + jsval) \<times> 'b world" where
  "invoke done_cb e p w =
     (done_cb e p (heap w), w\<lparr>calls := calls w @ [\<lparr>call_err = e, call_profile = p\<rparr>]\<rparr>)"

text \<open>
  The loop body \<^verbatim>\<open>profile[attribute.Name] = attribute.Value\<close>, on the profile at
  address \<open>a\<close>: read the name, convert it to a property key, read the value, assign.
\<close>

definition assign_attribute :: "nat \<Rightarrow> jsval \<Rightarrow> 'b world \<Rightarrow> (error + unit) \<times> 'b world" where
  "assign_attribute a attr w =
     (case Get attr ''Name'' of
        Inl e \<Rightarrow> (Inl e, w)
      | Inr n \<Rightarrow>
          (case ToString n of
             Inl e \<Rightarrow> (Inl e, w)
           | Inr k \<Rightarrow>
               (case Get attr ''Value'' of
                  Inl e \<Rightarrow> (Inl e, w)
                | Inr v \<Rightarrow> (Inr (), w\<lparr>heap := (heap w)[a := Put (heap w ! a) k v]\<rparr>))))"

fun for_of :: "nat \<Rightarrow> jsval list \<Rightarrow> 'b world \<Rightarrow> (error + unit) \<times> 'b world" where
  "for_of a [] w = (Inr (), w)"
| "for_of a (x # xs) w =
     (case assign_attribute a x w of
        (Inl e, w') \<Rightarrow> (Inl e, w')
      | (Inr u, w') \<Rightarrow> for_of a xs w')"

text \<open>
  The fulfilment handler: create the profile with \<^verbatim>\<open>username\<close>, copy the attributes,
  call back with \<^verbatim>\<open>(null, profile)\<close> and return what the callback returns.
\<close>

definition on_fulfilled :: "callback \<Rightarrow> jsval \<Rightarrow> 'b world \<Rightarrow> (error + jsval) \<times> 'b world" where
  "on_fulfilled done_cb getUserResponse w =
     (case Get getUserResponse ''Username'' of
        Inl e \<Rightarrow> (Inl e, w)
      | Inr u \<Rightarrow>
          (let a = length (heap w);
               w1 = w\<lparr>heap := heap w @ [object_literal [(''username'', u)]]\<rparr>
           in case Get getUserResponse ''UserAttributes'' of
                Inl e \<Rightarrow> (Inl e, w1)
              | Inr attrs \<Rightarrow>
                  (case iterate attrs of
                     Inl e \<Rightarrow> (Inl e, w1)
                   | Inr xs \<Rightarrow>
                       (case for_of a xs w1 of
                          (Inl e, w2) \<Rightarrow> (Inl e, w2)
                        | (Inr u, w2) \<Rightarrow> invoke done_cb None (Some a) w2))))"

text \<open>The rejection handler: call back with \<^verbatim>\<open>(userGetError, null)\<close>.\<close>

definition on_rejected :: "callback \<Rightarrow> error \<Rightarrow> 'b world \<Rightarrow> (error + jsval) \<times> 'b world" where
  "on_rejected done_cb userGetError w = invoke done_cb (Some userGetError) None w"

text \<open>
  A promise is pending for ever, fulfilled with a value or rejected with an error.
  \<^verbatim>\<open>then\<close> runs its handler on a fulfilled promise and passes a rejection on;
  \<^verbatim>\<open>catch\<close> runs its handler on a rejected promise and passes a value on. The promise
  that either of them returns is rejected with the exception when the handler raises, and
  fulfilled with the handler's result otherwise.
\<close>

datatype promise = Pending | Fulfilled jsval | Rejected error

definition promise_then ::
  "promise \<Rightarrow> (jsval \<Rightarrow> 'w \<Rightarrow> (error + jsval) \<times> 'w) \<Rightarrow> 'w \<Rightarrow> promise \<times> 'w" where
  "promise_then p onFulfilled w =
     (case p of
        Pending \<Rightarrow> (Pending, w)
      | Rejected e \<Rightarrow> (Rejected e, w)
      | Fulfilled v \<Rightarrow>
          (case onFulfilled v w of
             (Inl e, w') \<Rightarrow> (Rejected e, w')
           | (Inr r, w') \<Rightarrow> (Fulfilled r, w')))"

definition promise_catch ::
  "promise \<Rightarrow> (error \<Rightarrow> 'w \<Rightarrow> (error + jsval) \<times> 'w) \<Rightarrow> 'w \<Rightarrow> promise \<times> 'w" where
  "promise_catch p onRejected w =
     (case p of
        Pending \<Rightarrow> (Pending, w)
      | Fulfilled v \<Rightarrow> (Fulfilled v, w)
      | Rejected e \<Rightarrow>
          (case onRejected e w of
             (Inl e', w') \<Rightarrow> (Rejected e', w')
           | (Inr r, w') \<Rightarrow> (Fulfilled r, w')))"

text \<open>
  \<^verbatim>\<open>userProfile\<close>. The client's \<^verbatim>\<open>send\<close> is the SDK's: the parameter \<open>send\<close>
  gives the promise it returns for a client and a command. The function builds the
  command, sends it through \<^verbatim>\<open>this.cognitoClient\<close>, chains the two handlers and
  returns \<^verbatim>\<open>undefined\<close>. The handlers run once the promise has settled; the result
  pairs the value returned to the caller with the state after they have run. A rejection
  of the last promise of the chain has no handler.
\<close>

datatype command = GetUserCommand (AccessToken: jsval)

definition userProfile ::
  "(cognito_client \<Rightarrow> command \<Rightarrow> promise) \<Rightarrow> jsval \<Rightarrow> callback \<Rightarrow> 'b world
     \<Rightarrow> (error + jsval) \<times> 'b world" where
  "userProfile send userAccessToken done_cb w =
     (let command = GetUserCommand userAccessToken;
          sent = send (cognitoClient (self w)) command;
          (p1, w1) = promise_then sent (on_fulfilled done_cb) w;
          (p2, w2) = promise_catch p1 (on_rejected done_cb) w1
      in (Inr Undefined,
          case p2 of Rejected e \<Rightarrow> w2\<lparr>unhandled := unhandled w2 @ [e]\<rparr> | _ \<Rightarrow> w2))"

section \<open>Reading a response the way the specification describes it\<close>

text \<open>
  The specification speaks of a response that carries a username and an ordered list of
  (name, value) pairs. \<open>response_view\<close> reads such a response: an object whose
  \<^verbatim>\<open>Username\<close> is a string and whose \<^verbatim>\<open>UserAttributes\<close> is an array of objects,
  each with a string \<^verbatim>\<open>Name\<close>; it gives the username and the pairs in the order of the
  array, and \<open>None\<close> for a value of any other shape. An entry without \<^verbatim>\<open>Value\<close> has
  the value \<^verbatim>\<open>undefined\<close>.
\<close>

fun attribute_pair :: "jsval \<Rightarrow> (string \<times> jsval) option" where
  "attribute_pair (Obj ps) =
     (case map_of ps ''Name'' of
        Some (Str n) \<Rightarrow> Some (n, read_prop (Obj ps) ''Value'')
      | _ \<Rightarrow> None)"
| "attribute_pair v = None"

fun response_view :: "jsval \<Rightarrow> (string \<times> (string \<times> jsval) list) option" where
  "response_view (Obj ps) =
     (case (map_of ps ''Username'', map_of ps ''UserAttributes'') of
        (Some (Str u), Some (Arr xs)) \<Rightarrow> map_option (Pair u) (those (map attribute_pair xs))
      | _ \<Rightarrow> None)"
| "response_view v = None"

text \<open>The object that assigning the pairs \<open>attrs\<close>, in order, makes of \<open>ob\<close>.\<close>

definition copy_pairs :: "(string \<times> jsval) list \<Rightarrow> object \<Rightarrow> object" where
  "copy_pairs attrs ob = fold (\<lambda>(n, v) o'. Put o' n v) attrs ob"

text \<open>The invocations of the callback that a run from \<open>w\<close> to \<open>w'\<close> added.\<close>

definition new_calls :: "'b world \<Rightarrow> 'b world \<Rightarrow> call list" where
  "new_calls w w' = drop (length (calls w)) (calls w')"

text \<open>
  The entries on which the loop body raises: \<^verbatim>\<open>undefined\<close> and \<^verbatim>\<open>null\<close>, and an
  entry whose \<^verbatim>\<open>Name\<close> has no conversion to a property key.
\<close>

definition bad_entry :: "jsval \<Rightarrow> bool" where
  "bad_entry x \<longleftrightarrow> x = Undefined \<or> x = Null \<or> isl (ToString (read_prop x ''Name''))"

text \<open>
  The responses on which the fulfilment handler raises before it calls back: the response
  is \<^verbatim>\<open>undefined\<close> or \<^verbatim>\<open>null\<close>, its \<^verbatim>\<open>UserAttributes\<close> is not iterable, or the
  loop body raises on an entry of it.
\<close>

definition unreadable :: "jsval \<Rightarrow> bool" where
  "unreadable r \<longleftrightarrow>
     r = Undefined \<or> r = Null \<or>
     (case iterate (read_prop r ''UserAttributes'') of
        Inl e \<Rightarrow> True
      | Inr xs \<Rightarrow> list_ex bad_entry xs)"

section \<open>Example inputs\<close>

text \<open>The options of the example in the constructor's documentation comment.\<close>

definition documented_options :: jsval where
  "documented_options =
     Obj [(''callbackURL'', Str ''https://myapp.com/auth/cognito/callback''),
          (''clientDomain'', Str ''https://myapp.auth.us-west-2.amazoncognito.com''),
          (''clientID'', Str ''123-456-789''),
          (''clientSecret'', Str ''shhh-its-a-secret''),
          (''region'', Str ''us-west-2'')]"

text \<open>What the parameter pattern binds for them.\<close>

definition documented_params :: params where
  "documented_params =
     \<lparr> clientDomain = Str ''https://myapp.auth.us-west-2.amazoncognito.com'',
       clientID = Str ''123-456-789'',
       clientSecret = Str ''shhh-its-a-secret'',
       callbackURL = Str ''https://myapp.com/auth/cognito/callback'',
       passReqToCallback = Undefined,
       clientRegion = Undefined \<rparr>"

text \<open>The options derived from them.\<close>

definition documented_oauth2_options :: oauth2_options where
  "documented_oauth2_options =
     \<lparr> authorizationURL =
         Str ''https://myapp.auth.us-west-2.amazoncognito.com/oauth2/authorize'',
       opt_clientID = Str ''123-456-789'',
       opt_clientSecret = Str ''shhh-its-a-secret'',
       opt_callbackURL = Str ''https://myapp.com/auth/cognito/callback'',
       opt_passReqToCallback = Undefined,
       tokenURL = Str ''https://myapp.auth.us-west-2.amazoncognito.com/oauth2/token'' \<rparr>"

text \<open>
  \<^verbatim>\<open>url.parse\<close> on the authorization URLs of the examples, as a table: the host name of
  the documented URL, no host name (\<^verbatim>\<open>null\<close>) for the relative URL that a missing
  domain gives, and an error for every other string, among them the URL of the domain
  \<^verbatim>\<open>http://[\<close>, on which \<^verbatim>\<open>url.parse\<close> raises \<^verbatim>\<open>Invalid URL\<close>. No statement
  below applies the table to any further string.
\<close>

definition example_url_parse :: "string \<Rightarrow> error + jsval" where
  "example_url_parse s =
     (if s = ''https://myapp.auth.us-west-2.amazoncognito.com/oauth2/authorize''
      then Inr (Str ''myapp.auth.us-west-2.amazoncognito.com'')
      else if s = ''undefined/oauth2/authorize'' then Inr Null
      else Inl TypeError)"


definition bad_domain_options :: jsval where
  "bad_domain_options =
     Obj [(''callbackURL'', Str ''https://myapp.com/auth/cognito/callback''),
          (''clientDomain'', Str ''http://[''),
          (''clientID'', Str ''123-456-789''),
          (''clientSecret'', Str ''shhh-its-a-secret'')]"

text \<open>Options whose domain is an object with an own property \<^verbatim>\<open>toString\<close>.\<close>

definition object_domain_options :: jsval where
  "object_domain_options =
     Obj [(''callbackURL'', Str ''https://myapp.com/auth/cognito/callback''),
          (''clientDomain'', Obj [(''toString'', Str ''x'')]),
          (''clientID'', Str ''123-456-789''),
          (''clientSecret'', Str ''shhh-its-a-secret'')]"

text \<open>
  The state before a first call of \<^verbatim>\<open>userProfile\<close>: the instance constructed from the
  documented options, no object and no invocation yet.
\<close>

definition example_world :: "(oauth2_options \<times> unit) world" where
  "example_world =
     \<lparr> self = \<lparr> oauth2 = (documented_oauth2_options, ()),
                 cognitoClient = CognitoIdentityProviderClient Undefined,
                 name = ''cognito-oauth2'' \<rparr>,
       heap = [], calls = [], unhandled = [] \<rparr>"

text \<open>The response of the specification's scenario, with the attribute \<^verbatim>\<open>email\<close> twice.\<close>

definition alice_response :: jsval where
  "alice_response =
     Obj [(''Username'', Str ''alice''),
          (''UserAttributes'',
             Arr [Obj [(''Name'', Str ''email''), (''Value'', Str ''a@x.com'')],
                  Obj [(''Name'', Str ''email''), (''Value'', Str ''a2@x.com'')]])]"

text \<open>A response with two attributes of different names.\<close>

definition carol_response :: jsval where
  "carol_response =
     Obj [(''Username'', Str ''carol''),
          (''UserAttributes'',
             Arr [Obj [(''Name'', Str ''sub''), (''Value'', Str ''1234'')],
                  Obj [(''Name'', Str ''email''), (''Value'', Str ''c@x.com'')]])]"

text \<open>A response whose attribute \<^verbatim>\<open>username\<close> occurs twice.\<close>

definition renamed_response :: jsval where
  "renamed_response =
     Obj [(''Username'', Str ''alice''),
          (''UserAttributes'',
             Arr [Obj [(''Name'', Str ''username''), (''Value'', Str ''bob'')],
                  Obj [(''Name'', Str ''username''), (''Value'', Str ''carol'')]])]"

text \<open>
  Responses with an attribute named \<^verbatim>\<open>__proto__\<close>: once, twice, and once before the
  attribute \<^verbatim>\<open>email\<close> twice.
\<close>

definition proto_email_response :: jsval where
  "proto_email_response =
     Obj [(''Username'', Str ''alice''),
          (''UserAttributes'',
             Arr [Obj [(''Name'', Str ''__proto__''), (''Value'', Str ''x'')],
                  Obj [(''Name'', Str ''email''), (''Value'', Str ''a@x.com'')],
                  Obj [(''Name'', Str ''email''), (''Value'', Str ''a2@x.com'')]])]"


definition proto_response :: jsval where
  "proto_response =
     Obj [(''Username'', Str ''alice''),
          (''UserAttributes'', Arr [Obj [(''Name'', Str ''__proto__''), (''Value'', Str ''x'')]])]"

definition proto_twice_response :: jsval where
  "proto_twice_response =
     Obj [(''Username'', Str ''alice''),
          (''UserAttributes'',
             Arr [Obj [(''Name'', Str ''__proto__''), (''Value'', Str ''x'')],
                  Obj [(''Name'', Str ''__proto__''), (''Value'', Str ''y'')]])]"

text \<open>
  Responses of another shape: without \<^verbatim>\<open>Username\<close>, without \<^verbatim>\<open>UserAttributes\<close>,
  with a plain object for \<^verbatim>\<open>UserAttributes\<close>, and with an entry whose \<^verbatim>\<open>Name\<close> is
  an object with an own property \<^verbatim>\<open>toString\<close>.
\<close>

definition object_name_response :: jsval where
  "object_name_response =
     Obj [(''Username'', Str ''alice''),
          (''UserAttributes'',
             Arr [Obj [(''Name'', Obj [(''toString'', Str ''x'')]), (''Value'', Str ''v'')]])]"


definition no_username_response :: jsval where
  "no_username_response = Obj [(''UserAttributes'', Arr [])]"

definition no_attributes_response :: jsval where
  "no_attributes_response = Obj [(''Username'', Str ''alice'')]"

definition object_attributes_response :: jsval where
  "object_attributes_response =
     Obj [(''Username'', Str ''alice''), (''UserAttributes'', Obj [(''email'', Str ''a@x.com'')])]"

text \<open>
  Two callbacks: one that returns, and one that raises when it is given a profile and
  returns when it is given an error.
\<close>

definition returning :: callback where
  "returning e p h = Inr Undefined"

definition throwing :: callback where
  "throwing e p h = (case e of None \<Rightarrow> Inl (Failure ''boom'') | Some x \<Rightarrow> Inr Undefined)"

section \<open>Construction: endpoints, client and failure\<close>

lemma read_prop_Obj:
  "read_prop (Obj ps) k = (case map_of ps k of None \<Rightarrow> Undefined | Some v \<Rightarrow> v)"
  by (simp add: read_prop_def)

lemma destructure_Obj:
  "destructure (Obj ps) =
     Inr \<lparr> clientDomain = read_prop (Obj ps) ''clientDomain'',
           clientID = read_prop (Obj ps) ''clientID'',
           clientSecret = read_prop (Obj ps) ''clientSecret'',
           callbackURL = read_prop (Obj ps) ''callbackURL'',
           passReqToCallback = read_prop (Obj ps) ''passReqToCallback'',
           clientRegion = read_prop (Obj ps) ''clientRegion'' \<rparr>"
  by (simp add: destructure_def)




lemma make_options_domain:
  "ToString (clientDomain p) = Inr d \<Longrightarrow>
   make_options p =
     Inr \<lparr> authorizationURL = Str (d @ ''/oauth2/authorize''),
           opt_clientID = clientID p,
           opt_clientSecret = clientSecret p,
           opt_callbackURL = callbackURL p,
           opt_passReqToCallback = passReqToCallback p,
           tokenURL = Str (d @ ''/oauth2/token'') \<rparr>"
  by (simp add: make_options_def)


lemma Strategy_destructured:
  "destructure arg = Inr p \<Longrightarrow> make_options p = Inr options \<Longrightarrow>
   Strategy base arg verify =
     (case base options verify of
        Inl e \<Rightarrow> Inl e
      | Inr b \<Rightarrow>
          Inr \<lparr> oauth2 = b,
                cognitoClient = CognitoIdentityProviderClient (clientRegion p),
                name = ''cognito-oauth2'' \<rparr>)"
  by (simp add: Strategy_def)

lemma destructure_documented: "destructure documented_options = Inr documented_params"
  by (simp add: documented_options_def documented_params_def destructure_def read_prop_def)

lemma make_options_documented: "make_options documented_params = Inr documented_oauth2_options"
  by (simp add: make_options_def documented_params_def documented_oauth2_options_def)

text \<open>
  The template literals turn a missing domain into the text \<^verbatim>\<open>undefined\<close>: the
  options derived without a domain are those derived from the domain \<^verbatim>\<open>'undefined'\<close>,
  and the two URLs are never empty.
\<close>

lemma make_options_missing_domain:
  "make_options (p\<lparr>clientDomain := Undefined\<rparr>) = make_options (p\<lparr>clientDomain := Str ''undefined''\<rparr>)"
  by (simp add: make_options_def)

lemma make_options_urls_truthy:
  "make_options p = Inr options \<Longrightarrow>
   \<not> falsy (authorizationURL options) \<and> \<not> falsy (tokenURL options)"
  by (auto simp: make_options_def split: sum.splits)

text \<open>
  Claim C7. For every provider domain \<open>d\<close> given as the \<^verbatim>\<open>clientDomain\<close> option, the
  options that the constructor hands to the inherited constructor hold the two endpoints
  derived from it: the authorization URL is \<open>d\<close> followed by \<^verbatim>\<open>/oauth2/authorize\<close> and
  the token URL is \<open>d\<close> followed by \<^verbatim>\<open>/oauth2/token\<close>.
\<close>

theorem endpoints_from_domain:
  assumes "destructure (Obj ps) = Inr p" and "map_of ps ''clientDomain'' = Some (Str d)"
  shows "make_options p =
           Inr \<lparr> authorizationURL = Str (d @ ''/oauth2/authorize''),
                 opt_clientID = clientID p,
                 opt_clientSecret = clientSecret p,
                 opt_callbackURL = callbackURL p,
                 opt_passReqToCallback = passReqToCallback p,
                 tokenURL = Str (d @ ''/oauth2/token'') \<rparr> \<and>
         Strategy base (Obj ps) verify =
           (case base \<lparr> authorizationURL = Str (d @ ''/oauth2/authorize''),
                        opt_clientID = clientID p,
                        opt_clientSecret = clientSecret p,
                        opt_callbackURL = callbackURL p,
                        opt_passReqToCallback = passReqToCallback p,
                        tokenURL = Str (d @ ''/oauth2/token'') \<rparr> verify of
              Inl e \<Rightarrow> Inl e
            | Inr b \<Rightarrow>
                Inr \<lparr> oauth2 = b,
                      cognitoClient = CognitoIdentityProviderClient (clientRegion p),
                      name = ''cognito-oauth2'' \<rparr>)"
proof -
  have "clientDomain p = Str d"
    using assms by (auto simp: destructure_Obj read_prop_Obj)
  then have "ToString (clientDomain p) = Inr d" by simp
  from make_options_domain [OF this] show ?thesis
    using assms(1) by (simp add: Strategy_destructured)
qed

theorem endpoints_from_domain_witness:
  "destructure documented_options = Inr documented_params \<and>
   read_prop documented_options ''clientDomain'' =
     Str ''https://myapp.auth.us-west-2.amazoncognito.com'' \<and>
   map_sum id authorizationURL (make_options documented_params) =
     Inr (Str ''https://myapp.auth.us-west-2.amazoncognito.com/oauth2/authorize'') \<and>
   map_sum id tokenURL (make_options documented_params) =
     Inr (Str ''https://myapp.auth.us-west-2.amazoncognito.com/oauth2/token'')"
proof -
  let ?ps = "[(''callbackURL'', Str ''https://myapp.com/auth/cognito/callback''),
          (''clientDomain'', Str ''https://myapp.auth.us-west-2.amazoncognito.com''),
          (''clientID'', Str ''123-456-789''),
          (''clientSecret'', Str ''shhh-its-a-secret''),
          (''region'', Str ''us-west-2'')]"
  have h1: "destructure (Obj ?ps) = Inr documented_params"
    using destructure_documented by (simp add: documented_options_def)
  have h2: "map_of ?ps ''clientDomain'' =
              Some (Str ''https://myapp.auth.us-west-2.amazoncognito.com'')"
    by simp
  have "make_options documented_params =
           Inr \<lparr> authorizationURL =
                   Str (''https://myapp.auth.us-west-2.amazoncognito.com'' @ ''/oauth2/authorize''),
                 opt_clientID = clientID documented_params,
                 opt_clientSecret = clientSecret documented_params,
                 opt_callbackURL = callbackURL documented_params,
                 opt_passReqToCallback = passReqToCallback documented_params,
                 tokenURL =
                   Str (''https://myapp.auth.us-west-2.amazoncognito.com'' @ ''/oauth2/token'') \<rparr>"
    using endpoints_from_domain [OF h1 h2, of "OAuth2Strategy_call example_url_parse" "Some ()"]
    by blast
  then show ?thesis
    using h1 by (simp add: documented_options_def read_prop_def)
qed

text \<open>
  Claim C8. The client is to be scoped to the region given by the documented
  \<^verbatim>\<open>region\<close> option. On the options of the documentation's own example, which give
  \<^verbatim>\<open>region: 'us-west-2'\<close>, construction succeeds and the client is created with the
  region \<^verbatim>\<open>undefined\<close>: the parameter pattern binds \<^verbatim>\<open>clientRegion\<close>, a name the
  documentation does not list, and never reads \<^verbatim>\<open>region\<close>.
\<close>

theorem documented_region_ignored:
  "read_prop documented_options ''region'' = Str ''us-west-2'' \<and>
   Strategy (OAuth2Strategy_call example_url_parse) documented_options (Some ()) =
     Inr \<lparr> oauth2 = (documented_oauth2_options, ()),
           cognitoClient = CognitoIdentityProviderClient Undefined,
           name = ''cognito-oauth2'' \<rparr>"
  by (simp add: Strategy_destructured [OF destructure_documented make_options_documented]
        OAuth2Strategy_call_def)
    (simp add: documented_options_def documented_params_def documented_oauth2_options_def
        read_prop_def example_url_parse_def)


text \<open>
  Two malformed domains do fail: a domain on whose authorization URL \<^verbatim>\<open>url.parse\<close>
  raises, inside the inherited constructor, and a domain that has no conversion to a
  string, in the template literal.
\<close>

lemma bad_domain_fails:
  "Strategy (OAuth2Strategy_call example_url_parse) bad_domain_options (Some ()) = Inl TypeError"
  by (simp add: bad_domain_options_def read_prop_def Strategy_def destructure_def
        make_options_def OAuth2Strategy_call_def example_url_parse_def)

lemma object_domain_fails:
  "Strategy base object_domain_options verify = Inl TypeError"
  by (simp add: object_domain_options_def read_prop_def Strategy_def destructure_def
        make_options_def)


section \<open>The attribute loop on a well-formed response\<close>

lemma copy_pairs_Nil [simp]: "copy_pairs [] ob = ob"
  by (simp add: copy_pairs_def)

lemma copy_pairs_Cons [simp]: "copy_pairs ((n, v) # attrs) ob = copy_pairs attrs (Put ob n v)"
  by (simp add: copy_pairs_def)

lemma attribute_pair_SomeD:
  "attribute_pair x = Some (n, v) \<Longrightarrow> Get x ''Name'' = Inr (Str n) \<and> Get x ''Value'' = Inr v"
  by (cases x) (auto simp: read_prop_def split: option.splits jsval.splits)

lemma assign_attribute_pair:
  "attribute_pair x = Some (n, v) \<Longrightarrow>
   assign_attribute a x w = (Inr (), w\<lparr>heap := (heap w)[a := Put (heap w ! a) n v]\<rparr>)"
  by (drule attribute_pair_SomeD) (simp add: assign_attribute_def)

lemma for_of_view:
  "a < length (heap w) \<Longrightarrow> those (map attribute_pair xs) = Some attrs \<Longrightarrow>
   for_of a xs w = (Inr (), w\<lparr>heap := (heap w)[a := copy_pairs attrs (heap w ! a)]\<rparr>)"
proof (induction xs arbitrary: attrs w)
  case Nil
  then show ?case by simp
next
  case (Cons x xs)
  from Cons.prems(2) obtain n v rest where
    x: "attribute_pair x = Some (n, v)" and rest: "those (map attribute_pair xs) = Some rest"
    and attrs: "attrs = (n, v) # rest"
    by (auto split: option.splits)
  let ?w = "w\<lparr>heap := (heap w)[a := Put (heap w ! a) n v]\<rparr>"
  have "for_of a (x # xs) w = for_of a xs ?w"
    by (simp add: assign_attribute_pair [OF x])
  also have "\<dots> = (Inr (), ?w\<lparr>heap := (heap ?w)[a := copy_pairs rest (heap ?w ! a)]\<rparr>)"
    using Cons.prems(1) by (intro Cons.IH [OF _ rest]) simp
  also have "\<dots> = (Inr (), w\<lparr>heap := (heap w)[a := copy_pairs attrs (heap w ! a)]\<rparr>)"
    using Cons.prems(1) by (simp add: attrs)
  finally show ?case .
qed

lemma response_view_SomeD:
  assumes "response_view r = Some (u, attrs)"
  obtains xs where "Get r ''Username'' = Inr (Str u)" "Get r ''UserAttributes'' = Inr (Arr xs)"
    "those (map attribute_pair xs) = Some attrs"
  using assms by (cases r) (auto split: option.splits jsval.splits)

lemma on_fulfilled_view:
  assumes "response_view r = Some (u, attrs)"
  shows "on_fulfilled cb r w =
           invoke cb None (Some (length (heap w)))
             (w\<lparr>heap := heap w @ [copy_pairs attrs (object_literal [(''username'', Str u)])]\<rparr>)"
proof -
  from assms obtain xs where g: "Get r ''Username'' = Inr (Str u)"
    "Get r ''UserAttributes'' = Inr (Arr xs)" and t: "those (map attribute_pair xs) = Some attrs"
    by (rule response_view_SomeD)
  let ?w1 = "w\<lparr>heap := heap w @ [object_literal [(''username'', Str u)]]\<rparr>"
  have "for_of (length (heap w)) xs ?w1 =
          (Inr (), ?w1\<lparr>heap := (heap ?w1)[length (heap w) := copy_pairs attrs (heap ?w1 ! length (heap w))]\<rparr>)"
    by (rule for_of_view [OF _ t]) simp
  then have "for_of (length (heap w)) xs ?w1 =
          (Inr (), w\<lparr>heap := heap w @ [copy_pairs attrs (object_literal [(''username'', Str u)])]\<rparr>)"
    by simp
  then show ?thesis
    using g by (simp add: on_fulfilled_def Let_def)
qed

section \<open>The object after the assignments\<close>

text \<open>
  An assignment changes the value of no key but its own, and for every key other than
  \<^verbatim>\<open>__proto__\<close> it is an ordinary update, whatever the prototype has become. So after
  the loop such a key has the value of the last pair with that name, or its old value when
  there is none.
\<close>

lemma map_of_Put:
  "n \<noteq> ''__proto__'' \<Longrightarrow>
   map_of (properties (Put ob k v)) n = (if k = n then Some v else map_of (properties ob) n)"
  by (auto simp: Put_def AList.update_conv' split: jsval.splits)

lemma map_of_snoc:
  "map_of (xs @ [(k, v)]) n =
     (case map_of xs n of Some x \<Rightarrow> Some x | None \<Rightarrow> if k = n then Some v else None)"
  by (induction xs) auto

lemma copy_pairs_map_of:
  "n \<noteq> ''__proto__'' \<Longrightarrow>
   map_of (properties (copy_pairs attrs ob)) n =
     (case map_of (rev attrs) n of Some x \<Rightarrow> Some x | None \<Rightarrow> map_of (properties ob) n)"
proof (induction attrs arbitrary: ob)
  case Nil
  then show ?case by simp
next
  case (Cons a attrs)
  obtain k v where a: "a = (k, v)" by (cases a)
  have r: "map_of (rev (a # attrs)) n =
             (case map_of (rev attrs) n of
                Some x \<Rightarrow> Some x
              | None \<Rightarrow> if k = n then Some v else None)"
    by (simp only: a rev.simps map_of_snoc)
  have "map_of (properties (copy_pairs (a # attrs) ob)) n =
          (case map_of (rev attrs) n of
             Some x \<Rightarrow> Some x
           | None \<Rightarrow> map_of (properties (Put ob k v)) n)"
    using Cons.IH [OF Cons.prems, of "Put ob k v"] by (simp add: a)
  also have "\<dots> = (case map_of (rev (a # attrs)) n of
                       Some x \<Rightarrow> Some x
                     | None \<Rightarrow> map_of (properties ob) n)"
    unfolding r map_of_Put [OF Cons.prems] by (cases "map_of (rev attrs) n") simp_all
  finally show ?case .
qed

lemma map_of_rev_last:
  "n \<in> fst ` set attrs \<Longrightarrow>
   map_of (rev attrs) n = Some (snd (last (filter (\<lambda>p. fst p = n) attrs)))"
proof (induction attrs rule: rev_induct)
  case Nil
  then show ?case by simp
next
  case (snoc x xs)
  then show ?case by (cases "fst x = n") auto
qed

text \<open>
  When no pair is named \<^verbatim>\<open>__proto__\<close>, the loop is a sequence of ordinary updates and
  leaves the prototype alone: the keys are the old keys and the names, and they stay
  distinct.
\<close>

lemma copy_pairs_update:
  "''__proto__'' \<notin> fst ` set attrs \<Longrightarrow>
   copy_pairs attrs ob =
     ob\<lparr>properties := fold (\<lambda>(n, v). AList.update n v) attrs (properties ob)\<rparr>"
  by (induction attrs arbitrary: ob) (auto simp: Put_def)

lemma fold_update_distinct:
  "distinct (map fst ps) \<Longrightarrow> distinct (map fst (fold (\<lambda>(n, v). AList.update n v) attrs ps))"
  by (induction attrs arbitrary: ps) (auto simp: AList.distinct_update)

lemma fold_update_map_of:
  "map_of (fold (\<lambda>(n, v). AList.update n v) attrs ps) = map_of ps ++ map_of (rev attrs)"
proof (induction attrs arbitrary: ps)
  case Nil
  then show ?case by simp
next
  case (Cons a attrs)
  obtain n v where a: "a = (n, v)" by (cases a)
  have "map_of (fold (\<lambda>(n, v). AList.update n v) (a # attrs) ps)
          = map_of (AList.update n v ps) ++ map_of (rev attrs)"
    by (simp add: a Cons.IH)
  also have "\<dots> = (map_of ps)(n \<mapsto> v) ++ map_of (rev attrs)"
    by (simp add: AList.update_conv')
  also have "\<dots> = map_of ps ++ map_of (rev (a # attrs))"
    by (auto simp: a fun_eq_iff map_add_def split: option.splits)
  finally show ?case .
qed

lemma fold_update_keys:
  "fst ` set (fold (\<lambda>(n, v). AList.update n v) attrs ps) = fst ` set ps \<union> fst ` set attrs"
proof -
  have "dom (map_of (fold (\<lambda>(n, v). AList.update n v) attrs ps))
          = dom (map_of ps ++ map_of (rev attrs))"
    by (simp only: fold_update_map_of)
  then show ?thesis
    by (simp add: dom_map_of_conv_image_fst Un_commute)
qed

section \<open>Running \<^verbatim>\<open>userProfile\<close>\<close>

text \<open>The run, by the way the promise of \<^verbatim>\<open>send\<close> settles and the handler ends.\<close>

lemma userProfile_pending:
  "send (cognitoClient (self w)) (GetUserCommand tok) = Pending \<Longrightarrow>
   userProfile send tok cb w = (Inr Undefined, w)"
  by (simp add: userProfile_def promise_then_def promise_catch_def)

lemma userProfile_rejected:
  "send (cognitoClient (self w)) (GetUserCommand tok) = Rejected e \<Longrightarrow>
   userProfile send tok cb w =
     (Inr Undefined,
      case cb (Some e) None (heap w) of
        Inl x \<Rightarrow> w\<lparr>calls := calls w @ [\<lparr>call_err = Some e, call_profile = None\<rparr>],
                    unhandled := unhandled w @ [x]\<rparr>
      | Inr v \<Rightarrow> w\<lparr>calls := calls w @ [\<lparr>call_err = Some e, call_profile = None\<rparr>]\<rparr>)"
  by (simp add: userProfile_def promise_then_def promise_catch_def on_rejected_def invoke_def
        split: sum.splits)

lemma userProfile_fulfilled_returns:
  "send (cognitoClient (self w)) (GetUserCommand tok) = Fulfilled r \<Longrightarrow>
   on_fulfilled cb r w = (Inr v, w1) \<Longrightarrow>
   userProfile send tok cb w = (Inr Undefined, w1)"
  by (simp add: userProfile_def promise_then_def promise_catch_def)

lemma userProfile_fulfilled_raises:
  "send (cognitoClient (self w)) (GetUserCommand tok) = Fulfilled r \<Longrightarrow>
   on_fulfilled cb r w = (Inl e, w1) \<Longrightarrow>
   userProfile send tok cb w =
     (Inr Undefined,
      case cb (Some e) None (heap w1) of
        Inl x \<Rightarrow> w1\<lparr>calls := calls w1 @ [\<lparr>call_err = Some e, call_profile = None\<rparr>],
                     unhandled := unhandled w1 @ [x]\<rparr>
      | Inr v \<Rightarrow> w1\<lparr>calls := calls w1 @ [\<lparr>call_err = Some e, call_profile = None\<rparr>]\<rparr>)"
  by (simp add: userProfile_def promise_then_def promise_catch_def on_rejected_def invoke_def
        split: sum.splits)

text \<open>
  The loop touches nothing but the profile it fills; the fulfilment handler adds one
  object to the store and either raises without calling back, or calls back once with the
  new object.
\<close>

lemma assign_attribute_frame:
  "assign_attribute a x w = (res, w') \<Longrightarrow>
   self w' = self w \<and> calls w' = calls w \<and> unhandled w' = unhandled w \<and>
   length (heap w') = length (heap w) \<and> take a (heap w') = take a (heap w)"
  by (auto simp: assign_attribute_def split: sum.splits)

lemma for_of_frame:
  "for_of a xs w = (res, w') \<Longrightarrow>
   self w' = self w \<and> calls w' = calls w \<and> unhandled w' = unhandled w \<and>
   length (heap w') = length (heap w) \<and> take a (heap w') = take a (heap w)"
proof (induction xs arbitrary: w)
  case Nil
  then show ?case by simp
next
  case (Cons x xs)
  obtain r1 w1 where s: "assign_attribute a x w = (r1, w1)"
    by (cases "assign_attribute a x w")
  note f = assign_attribute_frame [OF s]
  show ?case
  proof (cases r1)
    case (Inl e)
    with Cons.prems s have "w' = w1" by simp
    with f show ?thesis by simp
  next
    case (Inr u)
    with Cons.prems s have "for_of a xs w1 = (res, w')" by simp
    from Cons.IH [OF this] f show ?thesis by simp
  qed
qed

lemma on_fulfilled_cases:
  assumes "on_fulfilled cb r w = (res, w')"
  shows "self w' = self w \<and> unhandled w' = unhandled w \<and>
         take (length (heap w)) (heap w') = heap w \<and>
         ((\<exists>e. res = Inl e \<and> calls w' = calls w) \<or>
          (calls w' = calls w @ [\<lparr>call_err = None, call_profile = Some (length (heap w))\<rparr>] \<and>
           length (heap w') = Suc (length (heap w)) \<and>
           res = cb None (Some (length (heap w))) (heap w')))"
proof (cases "Get r ''Username''")
  case (Inl e)
  with assms have "res = Inl e" "w' = w" by (simp_all add: on_fulfilled_def)
  then show ?thesis by simp
next
  case u: (Inr u)
  let ?w1 = "w\<lparr>heap := heap w @ [object_literal [(''username'', u)]]\<rparr>"
  show ?thesis
  proof (cases "Get r ''UserAttributes''")
    case (Inl e)
    with assms u have "res = Inl e" "w' = ?w1" by (simp_all add: on_fulfilled_def Let_def)
    then show ?thesis by simp
  next
    case at: (Inr attrs)
    show ?thesis
    proof (cases "iterate attrs")
      case (Inl e)
      with assms u at have "res = Inl e" "w' = ?w1" by (simp_all add: on_fulfilled_def Let_def)
      then show ?thesis by simp
    next
      case it: (Inr xs)
      obtain r2 w2 where l: "for_of (length (heap w)) xs ?w1 = (r2, w2)"
        by (cases "for_of (length (heap w)) xs ?w1")
      from for_of_frame [OF l]
      have f: "self w2 = self w" "calls w2 = calls w" "unhandled w2 = unhandled w"
        "length (heap w2) = Suc (length (heap w))" "take (length (heap w)) (heap w2) = heap w"
        by simp_all
      show ?thesis
      proof (cases r2)
        case (Inl e)
        with assms u at it l have "res = Inl e" "w' = w2"
          by (simp_all add: on_fulfilled_def Let_def)
        with f show ?thesis by simp
      next
        case (Inr x)
        with assms u at it l have "(res, w') = invoke cb None (Some (length (heap w))) w2"
          by (simp add: on_fulfilled_def Let_def)
        with f show ?thesis by (simp add: invoke_def)
      qed
    qed
  qed
qed

lemma userProfile_cases:
  assumes "userProfile send tok cb w = (res, w')"
  shows "res = Inr Undefined \<and> self w' = self w \<and>
         take (length (heap w)) (heap w') = heap w \<and>
         take (length (calls w)) (calls w') = calls w \<and>
         (new_calls w w' = [] \<or>
          (\<exists>e. new_calls w w' = [\<lparr>call_err = Some e, call_profile = None\<rparr>]) \<or>
          (length (heap w) < length (heap w') \<and>
           (new_calls w w' = [\<lparr>call_err = None, call_profile = Some (length (heap w))\<rparr>] \<or>
            (\<exists>e. new_calls w w' =
                   [\<lparr>call_err = None, call_profile = Some (length (heap w))\<rparr>,
                    \<lparr>call_err = Some e, call_profile = None\<rparr>]))))"
proof (cases "send (cognitoClient (self w)) (GetUserCommand tok)")
  case Pending
  with userProfile_pending [of send w tok cb] assms show ?thesis
    by (simp add: new_calls_def)
next
  case (Rejected e)
  with userProfile_rejected [of send w tok e cb] assms show ?thesis
    by (auto simp: new_calls_def split: sum.splits)
next
  case (Fulfilled r)
  obtain r1 w1 where h: "on_fulfilled cb r w = (r1, w1)"
    by (cases "on_fulfilled cb r w")
  note c = on_fulfilled_cases [OF h]
  show ?thesis
  proof (cases r1)
    case (Inr v)
    with userProfile_fulfilled_returns [of send w tok r cb v w1] Fulfilled h assms
    have "res = Inr Undefined" "w' = w1" by simp_all
    with c Inr show ?thesis by (auto simp: new_calls_def)
  next
    case (Inl e)
    with userProfile_fulfilled_raises [of send w tok r cb e w1] Fulfilled h assms
    have r: "res = Inr Undefined"
      and w': "w' = (case cb (Some e) None (heap w1) of
        Inl x \<Rightarrow> w1\<lparr>calls := calls w1 @ [\<lparr>call_err = Some e, call_profile = None\<rparr>],
                     unhandled := unhandled w1 @ [x]\<rparr>
      | Inr v \<Rightarrow> w1\<lparr>calls := calls w1 @ [\<lparr>call_err = Some e, call_profile = None\<rparr>]\<rparr>)"
      by simp_all
    have hp: "heap w' = heap w1" "self w' = self w1"
      "calls w' = calls w1 @ [\<lparr>call_err = Some e, call_profile = None\<rparr>]"
      by (simp_all add: w' split: sum.splits)
    from c show ?thesis
      using r hp Inl by (auto simp: new_calls_def)
  qed
qed

lemma userProfile_view:
  assumes sent: "send (cognitoClient (self w)) (GetUserCommand tok) = Fulfilled r"
    and view: "response_view r = Some (u, attrs)"
  shows "heap (snd (userProfile send tok cb w)) =
           heap w @ [copy_pairs attrs (object_literal [(''username'', Str u)])] \<and>
         take (Suc (length (calls w))) (calls (snd (userProfile send tok cb w))) =
           calls w @ [\<lparr>call_err = None, call_profile = Some (length (heap w))\<rparr>]"
proof -
  let ?w1 = "w\<lparr>heap := heap w @ [copy_pairs attrs (object_literal [(''username'', Str u)])]\<rparr>"
  let ?c = "\<lparr>call_err = None, call_profile = Some (length (heap w))\<rparr>"
  let ?w2 = "?w1\<lparr>calls := calls w @ [?c]\<rparr>"
  have h: "on_fulfilled cb r w = (cb None (Some (length (heap w))) (heap ?w1), ?w2)"
    by (simp add: on_fulfilled_view [OF view] invoke_def)
  show ?thesis
  proof (cases "cb None (Some (length (heap w))) (heap ?w1)")
    case (Inr v)
    with h have "on_fulfilled cb r w = (Inr v, ?w2)" by simp
    from userProfile_fulfilled_returns [of send w tok r cb v ?w2, OF sent this]
    show ?thesis by simp
  next
    case (Inl e)
    with h have "on_fulfilled cb r w = (Inl e, ?w2)" by simp
    from userProfile_fulfilled_raises [of send w tok r cb e ?w2, OF sent this]
    show ?thesis by (simp split: sum.splits)
  qed
qed

lemma profile_keys:
  assumes "''__proto__'' \<notin> fst ` set attrs"
  shows "copy_pairs attrs (object_literal [(''username'', Str u)]) =
           object_literal (fold (\<lambda>(n, v). AList.update n v) attrs [(''username'', Str u)])"
    and "distinct (map fst (properties (copy_pairs attrs (object_literal [(''username'', Str u)]))))"
    and "set (map fst (properties (copy_pairs attrs (object_literal [(''username'', Str u)])))) =
           insert ''username'' (fst ` set attrs)"
    and "map_of (properties (copy_pairs attrs (object_literal [(''username'', Str u)]))) =
           map_of [(''username'', Str u)] ++ map_of (rev attrs)"
  using assms
  by (simp_all add: copy_pairs_update object_literal_def fold_update_distinct fold_update_keys
        fold_update_map_of)

lemma profile_length:
  assumes "''__proto__'' \<notin> fst ` set attrs"
  shows "length (properties (copy_pairs attrs (object_literal [(''username'', Str u)])))
           \<le> length attrs + 1"
    and "distinct (map fst attrs) \<Longrightarrow> ''username'' \<notin> fst ` set attrs \<Longrightarrow>
         length (properties (copy_pairs attrs (object_literal [(''username'', Str u)])))
           = length attrs + 1"
proof -
  let ?P = "properties (copy_pairs attrs (object_literal [(''username'', Str u)]))"
  have len: "length ?P = card (insert ''username'' (fst ` set attrs))"
    using profile_keys(2,3) [OF assms, of u] distinct_card [of "map fst ?P"] by simp
  have "card (fst ` set attrs) \<le> length attrs"
    by (metis card_image_le card_length le_trans List.finite_set)
  then show "length ?P \<le> length attrs + 1"
    unfolding len by (simp add: card_insert_if)
  assume d: "distinct (map fst attrs)" and n: "''username'' \<notin> fst ` set attrs"
  from d have "card (fst ` set attrs) = length attrs"
    using distinct_card [of "map fst attrs"] by simp
  with n show "length ?P = length attrs + 1"
    unfolding len by simp
qed

lemmas run_simps =
  userProfile_def promise_then_def promise_catch_def on_fulfilled_def on_rejected_def
  invoke_def assign_attribute_def Put_def object_literal_def Let_def

section \<open>The profile of a fulfilled response\<close>

text \<open>
  Claim C1, as stated: every response with a username and N pairs gives a profile in which
  each attribute name is a key with the attribute's value, N + 1 keys when no names
  collide. It fails for the name \<^verbatim>\<open>__proto__\<close>: on the response with username
  \<^verbatim>\<open>alice\<close> and the one pair (\<^verbatim>\<open>__proto__\<close>, \<^verbatim>\<open>x\<close>), the callback receives the
  profile with the single key \<^verbatim>\<open>username\<close>; the assignment in the loop has run the
  prototype setter, which ignores a string, and has stored nothing.
\<close>

theorem proto_attribute_counterexample:
  "response_view proto_response = Some (''alice'', [(''__proto__'', Str ''x'')]) \<and>
   length (properties (last (heap (snd (userProfile (\<lambda>c k. Fulfilled proto_response)
                                          (Str ''tok-123'') returning example_world))))) = 1 \<and>
   map_of (properties (last (heap (snd (userProfile (\<lambda>c k. Fulfilled proto_response)
                                          (Str ''tok-123'') returning example_world)))))
     ''__proto__'' = None \<and>
   snd (userProfile (\<lambda>c k. Fulfilled proto_response) (Str ''tok-123'') returning example_world) =
     example_world\<lparr> heap := [object_literal [(''username'', Str ''alice'')]],
                    calls := [\<lparr>call_err = None, call_profile = Some 0\<rparr>] \<rparr>"
  by (simp add: run_simps proto_response_def example_world_def returning_def read_prop_def)

text \<open>
  Claim C1, amended. For every fulfilled response that carries a username \<open>u\<close> and an
  ordered list \<open>attrs\<close> of N (name, value) pairs, none of them named \<^verbatim>\<open>__proto__\<close>,
  \<^verbatim>\<open>userProfile\<close> creates one new object, the profile, and its first invocation of the
  callback is \<^verbatim>\<open>(null, profile)\<close>. The profile's keys are distinct and are exactly
  \<^verbatim>\<open>username\<close> and the attribute names, so there are at most N + 1 of them. When the
  names are pairwise different and none is \<^verbatim>\<open>username\<close>, there are exactly N + 1,
  \<^verbatim>\<open>username\<close> has the response's username and every pair's name has that pair's
  value. In general a name has the value of the last pair with that name. For the empty
  list the profile is exactly \<^verbatim>\<open>{username: u}\<close>.
\<close>

theorem profile_of_response:
  assumes sent: "send (cognitoClient (self w)) (GetUserCommand tok) = Fulfilled r"
    and view: "response_view r = Some (u, attrs)"
    and ordinary: "''__proto__'' \<notin> fst ` set attrs"
    and w': "w' = snd (userProfile send tok cb w)"
    and profile: "profile = last (heap w')"
  shows "heap w' = heap w @ [profile] \<and>
         take (Suc (length (calls w))) (calls w') =
           calls w @ [\<lparr>call_err = None, call_profile = Some (length (heap w))\<rparr>] \<and>
         prototype profile = ObjectPrototype \<and>
         distinct (map fst (properties profile)) \<and>
         set (map fst (properties profile)) = insert ''username'' (fst ` set attrs) \<and>
         length (properties profile) \<le> length attrs + 1 \<and>
         (distinct (map fst attrs) \<and> ''username'' \<notin> fst ` set attrs \<longrightarrow>
            length (properties profile) = length attrs + 1 \<and>
            map_of (properties profile) ''username'' = Some (Str u) \<and>
            (\<forall>(n, v) \<in> set attrs. map_of (properties profile) n = Some v)) \<and>
         (\<forall>n \<in> fst ` set attrs. map_of (properties profile) n = map_of (rev attrs) n) \<and>
         (attrs = [] \<longrightarrow> profile = object_literal [(''username'', Str u)])"
proof -
  let ?P = "copy_pairs attrs (object_literal [(''username'', Str u)])"
  note run = userProfile_view [of send w tok r u attrs cb, OF sent view]
  have p: "profile = ?P"
    using run by (simp add: profile w')
  have proto: "prototype profile = ObjectPrototype"
    unfolding p profile_keys(1) [OF ordinary] by (simp add: object_literal_def)
  have m: "map_of (properties profile) = map_of [(''username'', Str u)] ++ map_of (rev attrs)"
    unfolding p by (rule profile_keys(4) [OF ordinary])
  have last_wins: "\<forall>n \<in> fst ` set attrs. map_of (properties profile) n = map_of (rev attrs) n"
  proof
    fix n assume "n \<in> fst ` set attrs"
    then have "n \<in> dom (map_of (rev attrs))"
      by (simp add: dom_map_of_conv_image_fst)
    then show "map_of (properties profile) n = map_of (rev attrs) n"
      by (auto simp: m map_add_def split: option.splits)
  qed
  have exact: "length (properties profile) = length attrs + 1 \<and>
            map_of (properties profile) ''username'' = Some (Str u) \<and>
            (\<forall>(n, v) \<in> set attrs. map_of (properties profile) n = Some v)"
    if d: "distinct (map fst attrs)" and n: "''username'' \<notin> fst ` set attrs"
  proof -
    have "map_of (rev attrs) ''username'' = None"
      using n by (simp add: map_of_eq_None_iff)
    then have u: "map_of (properties profile) ''username'' = Some (Str u)"
      by (simp add: m map_add_def)
    have "\<forall>(k, v) \<in> set attrs. map_of (properties profile) k = Some v"
    proof (clarify)
      fix k v assume kv: "(k, v) \<in> set attrs"
      then have "map_of (rev attrs) k = Some v"
        using d by (simp add: distinct_rev rev_map [symmetric])
      moreover have "k \<in> fst ` set attrs" using kv by force
      with last_wins have "map_of (properties profile) k = map_of (rev attrs) k" by blast
      ultimately show "map_of (properties profile) k = Some v" by simp
    qed
    with u profile_length(2) [OF ordinary d n, of u] show ?thesis
      by (simp add: p)
  qed
  show ?thesis
    using run profile_keys(2,3) [OF ordinary, of u] profile_length(1) [OF ordinary, of u]
      last_wins exact proto
    by (simp add: p w')
qed

theorem profile_of_response_witness:
  "response_view carol_response =
     Some (''carol'', [(''sub'', Str ''1234''), (''email'', Str ''c@x.com'')]) \<and>
   ''__proto__'' \<notin> fst ` set [(''sub'', Str ''1234''), (''email'', Str ''c@x.com'')] \<and>
   length (properties (last (heap (snd (userProfile (\<lambda>c k. Fulfilled carol_response)
                                          (Str ''tok-123'') returning example_world))))) = 3 \<and>
   map_of (properties (last (heap (snd (userProfile (\<lambda>c k. Fulfilled carol_response)
                                          (Str ''tok-123'') returning example_world)))))
     ''email'' = Some (Str ''c@x.com'') \<and>
   heap (snd (userProfile (\<lambda>c k. Fulfilled carol_response) (Str ''tok-123'')
                returning example_world)) =
     [object_literal
        [(''username'', Str ''carol''), (''sub'', Str ''1234''), (''email'', Str ''c@x.com'')]]"
proof -
  let ?attrs = "[(''sub'', Str ''1234''), (''email'', Str ''c@x.com'')]"
  let ?send = "\<lambda>(c::cognito_client) (k::command). Fulfilled carol_response"
  let ?w' = "snd (userProfile ?send (Str ''tok-123'') returning example_world)"
  have h1: "?send (cognitoClient (self example_world)) (GetUserCommand (Str ''tok-123'')) =
              Fulfilled carol_response"
    by simp
  have h2: "response_view carol_response = Some (''carol'', ?attrs)"
    by (simp add: carol_response_def read_prop_def)
  have h3: "''__proto__'' \<notin> fst ` set ?attrs"
    by simp
  have d: "distinct (map fst ?attrs) \<and> ''username'' \<notin> fst ` set ?attrs"
    by simp
  note t = profile_of_response [of ?send example_world "Str ''tok-123''" carol_response
      "''carol''" ?attrs ?w' returning "last (heap ?w')", OF h1 h2 h3 refl refl]
  from t d have "length (properties (last (heap ?w'))) = 3"
    and "map_of (properties (last (heap ?w'))) ''email'' = Some (Str ''c@x.com'')"
    by auto
  moreover have "heap ?w' =
     [object_literal
        [(''username'', Str ''carol''), (''sub'', Str ''1234''), (''email'', Str ''c@x.com'')]]"
    by (simp add: run_simps carol_response_def example_world_def returning_def)
  ultimately show ?thesis
    using h2 h3 by blast
qed

section \<open>Names that occur more than once\<close>

text \<open>
  Claim C3, as stated: a name that occurs twice gets the value of its last entry. It fails
  for the name \<^verbatim>\<open>__proto__\<close>: on the response with the pairs (\<^verbatim>\<open>__proto__\<close>,
  \<^verbatim>\<open>x\<close>) and (\<^verbatim>\<open>__proto__\<close>, \<^verbatim>\<open>y\<close>) the profile has no property of that name, and
  the callback receives the profile with the single key \<^verbatim>\<open>username\<close>.
\<close>

theorem proto_twice_counterexample:
  "response_view proto_twice_response =
     Some (''alice'', [(''__proto__'', Str ''x''), (''__proto__'', Str ''y'')]) \<and>
   map_of (properties (last (heap (snd (userProfile (\<lambda>c k. Fulfilled proto_twice_response)
                                          (Str ''tok-123'') returning example_world)))))
     ''__proto__'' = None \<and>
   snd (userProfile (\<lambda>c k. Fulfilled proto_twice_response) (Str ''tok-123'') returning
          example_world) =
     example_world\<lparr> heap := [object_literal [(''username'', Str ''alice'')]],
                    calls := [\<lparr>call_err = None, call_profile = Some 0\<rparr>] \<rparr>"
  by (simp add: run_simps proto_twice_response_def example_world_def returning_def read_prop_def)

text \<open>
  Claim C3, amended. For every fulfilled response that carries a username and a list of
  pairs, and every name other than \<^verbatim>\<open>__proto__\<close> that occurs in the list, once or more
  often, the profile's value for that name is the value of the last pair with that name,
  in list order; pairs named \<^verbatim>\<open>__proto__\<close> elsewhere in the list do not change that.
  This holds for the name \<^verbatim>\<open>username\<close> too: an attribute of that name overwrites the
  response's username. The callback's first invocation is \<^verbatim>\<open>(null, profile)\<close>. On the
  scenario's response (username \<^verbatim>\<open>alice\<close>, \<^verbatim>\<open>email\<close> twice) the profile is
  \<^verbatim>\<open>{username: "alice", email: "a2@x.com"}\<close> and the callback is invoked once, as
  \<^verbatim>\<open>(null, profile)\<close>.
\<close>

theorem last_write_wins:
  assumes sent: "send (cognitoClient (self w)) (GetUserCommand tok) = Fulfilled r"
    and view: "response_view r = Some (u, attrs)"
    and w': "w' = snd (userProfile send tok cb w)"
    and profile: "profile = last (heap w')"
  shows "(\<forall>n \<in> fst ` set attrs. n \<noteq> ''__proto__'' \<longrightarrow>
            map_of (properties profile) n =
              Some (snd (last (filter (\<lambda>p. fst p = n) attrs)))) \<and>
         (''username'' \<in> fst ` set attrs \<longrightarrow>
            map_of (properties profile) ''username'' =
              Some (snd (last (filter (\<lambda>p. fst p = ''username'') attrs)))) \<and>
         heap w' = heap w @ [profile] \<and>
         take (Suc (length (calls w))) (calls w') =
           calls w @ [\<lparr>call_err = None, call_profile = Some (length (heap w))\<rparr>] \<and>
         snd (userProfile (\<lambda>c k. Fulfilled alice_response) (Str ''tok-123'') returning
                example_world) =
           example_world\<lparr> heap := [object_literal
                                      [(''username'', Str ''alice''), (''email'', Str ''a2@x.com'')]],
                          calls := [\<lparr>call_err = None, call_profile = Some 0\<rparr>] \<rparr>"
proof -
  note run = userProfile_view [of send w tok r u attrs cb, OF sent view]
  have p: "profile = copy_pairs attrs (object_literal [(''username'', Str u)])"
    using run by (simp add: profile w')
  have l: "map_of (properties profile) n = Some (snd (last (filter (\<lambda>p. fst p = n) attrs)))"
    if "n \<in> fst ` set attrs" "n \<noteq> ''__proto__''" for n
    unfolding p copy_pairs_map_of [OF that(2)] map_of_rev_last [OF that(1)] by simp
  have "snd (userProfile (\<lambda>c k. Fulfilled alice_response) (Str ''tok-123'') returning
                example_world) =
           example_world\<lparr> heap := [object_literal
                                      [(''username'', Str ''alice''), (''email'', Str ''a2@x.com'')]],
                          calls := [\<lparr>call_err = None, call_profile = Some 0\<rparr>] \<rparr>"
    by (simp add: run_simps alice_response_def example_world_def returning_def)
  moreover have "heap w' = heap w @ [profile]"
    using run by (simp add: w' p)
  moreover have "take (Suc (length (calls w))) (calls w') =
           calls w @ [\<lparr>call_err = None, call_profile = Some (length (heap w))\<rparr>]"
    using run by (simp add: w')
  ultimately show ?thesis
    using l by blast
qed

theorem last_write_wins_witness:
  "response_view proto_email_response =
     Some (''alice'', [(''__proto__'', Str ''x''), (''email'', Str ''a@x.com''),
                       (''email'', Str ''a2@x.com'')]) \<and>
   ''email'' \<in> fst ` set [(''__proto__'', Str ''x''), (''email'', Str ''a@x.com''),
                          (''email'', Str ''a2@x.com'')] \<and>
   map_of (properties (last (heap (snd (userProfile (\<lambda>c k. Fulfilled proto_email_response)
                                          (Str ''tok-123'') returning example_world)))))
     ''email'' = Some (Str ''a2@x.com'') \<and>
   heap (snd (userProfile (\<lambda>c k. Fulfilled proto_email_response) (Str ''tok-123'')
                returning example_world)) =
     [object_literal [(''username'', Str ''alice''), (''email'', Str ''a2@x.com'')]]"
proof -
  let ?attrs = "[(''__proto__'', Str ''x''), (''email'', Str ''a@x.com''),
                 (''email'', Str ''a2@x.com'')]"
  let ?send = "\<lambda>(c::cognito_client) (k::command). Fulfilled proto_email_response"
  let ?w' = "snd (userProfile ?send (Str ''tok-123'') returning example_world)"
  have h1: "?send (cognitoClient (self example_world)) (GetUserCommand (Str ''tok-123'')) =
              Fulfilled proto_email_response"
    by simp
  have h2: "response_view proto_email_response = Some (''alice'', ?attrs)"
    by (simp add: proto_email_response_def read_prop_def)
  have h4: "''email'' \<in> fst ` set ?attrs"
    by simp
  have h5: "''email'' \<noteq> ''__proto__''"
    by simp
  note t = last_write_wins [of ?send example_world "Str ''tok-123''" proto_email_response
      "''alice''" ?attrs ?w' returning "last (heap ?w')", OF h1 h2 refl refl]
  from bspec [OF t [THEN conjunct1] h4, THEN mp, OF h5]
  have "map_of (properties (last (heap ?w'))) ''email'' =
      Some (snd (last (filter (\<lambda>p. fst p = ''email'') ?attrs)))" .
  then have "map_of (properties (last (heap ?w'))) ''email'' = Some (Str ''a2@x.com'')"
    by simp
  moreover have "heap ?w' =
      [object_literal [(''username'', Str ''alice''), (''email'', Str ''a2@x.com'')]]"
    by (simp add: run_simps proto_email_response_def example_world_def returning_def)
  ultimately show ?thesis
    using h2 h4 by (intro conjI)
qed

text \<open>The response whose attribute \<^verbatim>\<open>username\<close> occurs twice: the last one is the profile's.\<close>

lemma renamed_username:
  "snd (userProfile (\<lambda>c k. Fulfilled renamed_response) (Str ''tok-123'') returning example_world) =
     example_world\<lparr> heap := [object_literal [(''username'', Str ''carol'')]],
                    calls := [\<lparr>call_err = None, call_profile = Some 0\<rparr>] \<rparr>"
  by (simp add: run_simps renamed_response_def example_world_def returning_def)

section \<open>Rejection of the identity-provider call\<close>

lemma new_calls_xor:
  assumes "userProfile send tok cb w = (res, w')"
  shows "\<forall>c \<in> set (new_calls w w'). (call_err c = None) \<noteq> (call_profile c = None)"
  using userProfile_cases [OF assms] by auto

text \<open>
  Claim C2. When the promise of \<^verbatim>\<open>send\<close> is rejected with an error \<open>e\<close>, the callback
  is invoked exactly once, with the error \<open>e\<close> (an error object, so not \<^verbatim>\<open>null\<close>) and
  the profile \<^verbatim>\<open>null\<close>, and no object is created: there is no profile, partial or
  complete. In every run, whatever the promise and the callback do, each invocation has
  either an error or a profile, never both and never neither.
\<close>

theorem rejection_reaches_callback:
  assumes "send (cognitoClient (self w)) (GetUserCommand tok) = Rejected e"
    and "w' = snd (userProfile send tok cb w)"
  shows "new_calls w w' = [\<lparr>call_err = Some e, call_profile = None\<rparr>] \<and>
         heap w' = heap w \<and>
         (\<forall>c \<in> set (new_calls v (snd (userProfile send' tok' cb' v))).
            (call_err c = None) \<noteq> (call_profile c = None))"
proof -
  have "new_calls w w' = [\<lparr>call_err = Some e, call_profile = None\<rparr>] \<and> heap w' = heap w"
    using userProfile_rejected [of send w tok e cb] assms
    by (simp add: new_calls_def split: sum.splits)
  moreover have "\<forall>c \<in> set (new_calls v (snd (userProfile send' tok' cb' v))).
            (call_err c = None) \<noteq> (call_profile c = None)"
    using new_calls_xor [of send' tok' cb' v] by (metis prod.collapse)
  ultimately show ?thesis by blast
qed

theorem rejection_reaches_callback_witness:
  "new_calls example_world
     (snd (userProfile (\<lambda>c k. Rejected (Failure ''NotAuthorizedException'')) (Str ''bad-tok'')
             returning example_world)) =
     [\<lparr>call_err = Some (Failure ''NotAuthorizedException''), call_profile = None\<rparr>] \<and>
   heap (snd (userProfile (\<lambda>c k. Rejected (Failure ''NotAuthorizedException'')) (Str ''bad-tok'')
                returning example_world)) = []"
proof -
  let ?send = "\<lambda>(c::cognito_client) (k::command). Rejected (Failure ''NotAuthorizedException'')"
  have h: "?send (cognitoClient (self example_world)) (GetUserCommand (Str ''bad-tok'')) =
             Rejected (Failure ''NotAuthorizedException'')"
    by simp
  from rejection_reaches_callback [of ?send example_world "Str ''bad-tok''"
      "Failure ''NotAuthorizedException''" _ returning example_world ?send "Str ''bad-tok''"
      returning, OF h refl]
  show ?thesis by (simp add: example_world_def)
qed

section \<open>Responses of an unexpected shape\<close>

lemma ToString_raises:
  "ToString v = Inl e \<Longrightarrow> e = TypeError"
  "element_strings xs = Inl e \<Longrightarrow> e = TypeError"
  by (induction v and xs arbitrary: e and e rule: ToString_element_strings.induct)
    (auto split: sum.splits if_splits jsval.splits)

lemma Get_cases:
  "Get x k = (if x = Undefined \<or> x = Null then Inl TypeError else Inr (read_prop x k))"
  by (cases x) (simp_all add: read_prop_def)

lemma assign_attribute_result:
  "fst (assign_attribute a x w) = (if bad_entry x then Inl TypeError else Inr ())"
proof (cases "x = Undefined \<or> x = Null")
  case True
  then show ?thesis by (auto simp: assign_attribute_def bad_entry_def)
next
  case False
  show ?thesis
  proof (cases "ToString (read_prop x ''Name'')")
    case (Inl e)
    with ToString_raises(1) have "e = TypeError" by blast
    with Inl False show ?thesis
      by (simp add: assign_attribute_def bad_entry_def Get_cases)
  next
    case (Inr k)
    with False show ?thesis
      by (simp add: assign_attribute_def bad_entry_def Get_cases)
  qed
qed

lemma for_of_result:
  "fst (for_of a xs w) = (if list_ex bad_entry xs then Inl TypeError else Inr ())"
proof (induction xs arbitrary: w)
  case Nil
  then show ?case by simp
next
  case (Cons x xs)
  obtain r1 w1 where s: "assign_attribute a x w = (r1, w1)"
    by (cases "assign_attribute a x w")
  with assign_attribute_result [of a x w]
  have r1: "r1 = (if bad_entry x then Inl TypeError else Inr ())"
    by simp
  show ?case
  proof (cases "bad_entry x")
    case True
    with r1 s show ?thesis by simp
  next
    case False
    with r1 s have "for_of a (x # xs) w = for_of a xs w1" by simp
    with Cons.IH [of w1] False show ?thesis by simp
  qed
qed

lemma on_fulfilled_unreadable:
  assumes "unreadable r"
  shows "\<exists>w1. on_fulfilled cb r w = (Inl TypeError, w1) \<and> calls w1 = calls w"
proof (cases "r = Undefined \<or> r = Null")
  case True
  then show ?thesis by (auto simp: on_fulfilled_def)
next
  case False
  then have g: "Get r ''Username'' = Inr (read_prop r ''Username'')"
    "Get r ''UserAttributes'' = Inr (read_prop r ''UserAttributes'')"
    by (simp_all add: Get_cases)
  let ?w1 = "w\<lparr>heap := heap w @ [object_literal [(''username'', read_prop r ''Username'')]]\<rparr>"
  show ?thesis
  proof (cases "iterate (read_prop r ''UserAttributes'')")
    case (Inl e)
    then have "e = TypeError"
      by (cases "read_prop r ''UserAttributes''") auto
    with Inl g show ?thesis by (simp add: on_fulfilled_def Let_def)
  next
    case (Inr xs)
    with assms False have bad: "list_ex bad_entry xs"
      by (simp add: unreadable_def)
    obtain r2 w2 where l: "for_of (length (heap w)) xs ?w1 = (r2, w2)"
      by (cases "for_of (length (heap w)) xs ?w1")
    with for_of_result [of "length (heap w)" xs ?w1] bad have "r2 = Inl TypeError"
      by simp
    moreover from for_of_frame [OF l] have "calls w2 = calls w" by simp
    ultimately show ?thesis
      using g Inr l by (simp add: on_fulfilled_def Let_def)
  qed
qed

lemma on_fulfilled_readable:
  assumes "\<not> unreadable r"
  shows "\<exists>w2. on_fulfilled cb r w = invoke cb None (Some (length (heap w))) w2 \<and>
              calls w2 = calls w \<and> length (heap w2) = Suc (length (heap w))"
proof -
  from assms have nn: "\<not> (r = Undefined \<or> r = Null)"
    by (auto simp: unreadable_def)
  then have g: "Get r ''Username'' = Inr (read_prop r ''Username'')"
    "Get r ''UserAttributes'' = Inr (read_prop r ''UserAttributes'')"
    by (simp_all add: Get_cases)
  let ?w1 = "w\<lparr>heap := heap w @ [object_literal [(''username'', read_prop r ''Username'')]]\<rparr>"
  from assms nn obtain xs where it: "iterate (read_prop r ''UserAttributes'') = Inr xs"
    and ok: "\<not> list_ex bad_entry xs"
    by (auto simp: unreadable_def split: sum.splits)
  obtain r2 w2 where l: "for_of (length (heap w)) xs ?w1 = (r2, w2)"
    by (cases "for_of (length (heap w)) xs ?w1")
  with for_of_result [of "length (heap w)" xs ?w1] ok have "r2 = Inr ()"
    by simp
  with g it l have "on_fulfilled cb r w = invoke cb None (Some (length (heap w))) w2"
    by (simp add: on_fulfilled_def Let_def)
  moreover from for_of_frame [OF l]
  have "calls w2 = calls w" "length (heap w2) = Suc (length (heap w))" by simp_all
  ultimately show ?thesis by blast
qed

text \<open>
  Claim C4, as stated: a response without the username field is reported to the callback
  as an error. It is not: on the response \<^verbatim>\<open>{UserAttributes: []}\<close> the callback is
  invoked once, with no error and the profile \<^verbatim>\<open>{username: undefined}\<close>.
\<close>

theorem missing_username_counterexample:
  "read_prop no_username_response ''Username'' = Undefined \<and>
   snd (userProfile (\<lambda>c k. Fulfilled no_username_response) (Str ''tok-123'') returning
          example_world) =
     example_world\<lparr> heap := [object_literal [(''username'', Undefined)]],
                    calls := [\<lparr>call_err = None, call_profile = Some 0\<rparr>] \<rparr>"
  by (simp add: run_simps no_username_response_def example_world_def returning_def read_prop_def)

text \<open>
  Claim C4, amended. The handler checks nothing; a response is reported as an error only
  where reading it raises. If the response is \<^verbatim>\<open>undefined\<close> or \<^verbatim>\<open>null\<close>, or its
  attribute list is not iterable (missing, \<^verbatim>\<open>null\<close>, a boolean, a plain object), or an
  entry of the list is \<^verbatim>\<open>undefined\<close> or \<^verbatim>\<open>null\<close>, or an entry's name has no conversion
  to a property key (an object with an own property \<^verbatim>\<open>toString\<close>, or an array that
  holds one), the callback is invoked exactly once, with a \<^verbatim>\<open>TypeError\<close> and the profile
  \<^verbatim>\<open>null\<close>. Every other response, also one without a username or with entries that
  lack a name or a value, is reported as a success: the callback's first invocation is
  \<^verbatim>\<open>(null, profile)\<close> with the newly created profile.
\<close>

theorem unreadable_response_error:
  assumes sent: "send (cognitoClient (self w)) (GetUserCommand tok) = Fulfilled r"
    and w': "w' = snd (userProfile send tok cb w)"
  shows "(unreadable r \<longrightarrow>
            new_calls w w' = [\<lparr>call_err = Some TypeError, call_profile = None\<rparr>]) \<and>
         (\<not> unreadable r \<longrightarrow>
            take 1 (new_calls w w') = [\<lparr>call_err = None, call_profile = Some (length (heap w))\<rparr>] \<and>
            length (heap w') = Suc (length (heap w)))"
proof (cases "unreadable r")
  case True
  from on_fulfilled_unreadable [OF True, of cb w]
  obtain w1 where h: "on_fulfilled cb r w = (Inl TypeError, w1)" and c: "calls w1 = calls w"
    by blast
  from userProfile_fulfilled_raises [of send w tok r cb TypeError w1, OF sent h] c True
  show ?thesis
    by (simp add: w' new_calls_def split: sum.splits)
next
  case False
  from on_fulfilled_readable [OF False, of cb w]
  obtain w2 where h: "on_fulfilled cb r w = invoke cb None (Some (length (heap w))) w2"
    and c: "calls w2 = calls w" and l: "length (heap w2) = Suc (length (heap w))"
    by blast
  let ?c = "\<lparr>call_err = None, call_profile = Some (length (heap w))\<rparr>"
  let ?w3 = "w2\<lparr>calls := calls w2 @ [?c]\<rparr>"
  show ?thesis
  proof (cases "cb None (Some (length (heap w))) (heap w2)")
    case (Inr v)
    with h have "on_fulfilled cb r w = (Inr v, ?w3)" by (simp add: invoke_def)
    from userProfile_fulfilled_returns [of send w tok r cb v ?w3, OF sent this] c l False
    show ?thesis by (simp add: w' new_calls_def)
  next
    case (Inl e)
    with h have "on_fulfilled cb r w = (Inl e, ?w3)" by (simp add: invoke_def)
    from userProfile_fulfilled_raises [of send w tok r cb e ?w3, OF sent this] c l False
    show ?thesis by (simp add: w' new_calls_def split: sum.splits)
  qed
qed

theorem unreadable_response_error_witness:
  "unreadable no_attributes_response \<and>
   new_calls example_world
     (snd (userProfile (\<lambda>c k. Fulfilled no_attributes_response) (Str ''tok-123'') returning
             example_world)) =
     [\<lparr>call_err = Some TypeError, call_profile = None\<rparr>]"
proof -
  let ?send = "\<lambda>(c::cognito_client) (k::command). Fulfilled no_attributes_response"
  have h: "?send (cognitoClient (self example_world)) (GetUserCommand (Str ''tok-123'')) =
             Fulfilled no_attributes_response"
    by simp
  have u: "unreadable no_attributes_response"
    by (simp add: unreadable_def no_attributes_response_def read_prop_def)
  from unreadable_response_error [of ?send example_world "Str ''tok-123''"
      no_attributes_response _ returning, OF h refl] u
  show ?thesis by blast
qed

text \<open>
  The response with an entry whose name is \<^verbatim>\<open>{toString: 'x'}\<close>: the conversion of the
  name to a property key raises, and the callback receives the \<^verbatim>\<open>TypeError\<close>.
\<close>

lemma object_name_reported:
  "unreadable object_name_response \<and>
   snd (userProfile (\<lambda>c k. Fulfilled object_name_response) (Str ''tok-123'') returning
          example_world) =
     example_world\<lparr> heap := [object_literal [(''username'', Str ''alice'')]],
                    calls := [\<lparr>call_err = Some TypeError, call_profile = None\<rparr>] \<rparr>"
  by (simp add: run_simps object_name_response_def example_world_def returning_def read_prop_def
        unreadable_def bad_entry_def)

section \<open>How often the callback runs\<close>

text \<open>
  Claim C5. The callback is to run exactly once per invocation. On the scenario's
  response, with a callback that raises when it is given the profile, it runs twice: first
  as \<^verbatim>\<open>(null, profile)\<close>, then, because the rejection handler of the chain also takes
  the exception of the first run, as \<^verbatim>\<open>(error, null)\<close>.
\<close>

theorem throwing_callback_called_twice:
  "snd (userProfile (\<lambda>c k. Fulfilled alice_response) (Str ''tok-123'') throwing example_world) =
     example_world\<lparr> heap := [object_literal
                                [(''username'', Str ''alice''), (''email'', Str ''a2@x.com'')]],
                    calls := [\<lparr>call_err = None, call_profile = Some 0\<rparr>,
                              \<lparr>call_err = Some (Failure ''boom''), call_profile = None\<rparr>] \<rparr>"
  by (simp add: run_simps alice_response_def example_world_def throwing_def)

text \<open>
  With a callback that returns whenever it is given a profile, the callback runs exactly
  once after the promise has settled.
\<close>

lemma returning_callback_called_once:
  assumes "send (cognitoClient (self w)) (GetUserCommand tok) \<noteq> Pending"
    and "\<And>p h. \<not> isl (cb None p h)"
    and "w' = snd (userProfile send tok cb w)"
  shows "length (new_calls w w') = 1"
proof (cases "send (cognitoClient (self w)) (GetUserCommand tok)")
  case Pending
  with assms(1) show ?thesis by simp
next
  case (Rejected e)
  from userProfile_rejected [of send w tok e cb, OF this] show ?thesis
    by (simp add: assms(3) new_calls_def split: sum.splits)
next
  case (Fulfilled r)
  obtain r1 w1 where h: "on_fulfilled cb r w = (r1, w1)"
    by (cases "on_fulfilled cb r w")
  note c = on_fulfilled_cases [OF h]
  show ?thesis
  proof (cases r1)
    case (Inr v)
    with c have "calls w1 = calls w @ [\<lparr>call_err = None, call_profile = Some (length (heap w))\<rparr>]"
      by auto
    with userProfile_fulfilled_returns [of send w tok r cb v w1] Fulfilled h Inr show ?thesis
      by (simp add: assms(3) new_calls_def)
  next
    case (Inl e)
    with c assms(2) have c1: "calls w1 = calls w"
      by (metis isl_def)
    from userProfile_fulfilled_raises [of send w tok r cb e w1] Fulfilled h Inl c1
    show ?thesis
      by (simp add: assms(3) new_calls_def split: sum.splits)
  qed
qed

section \<open>Exceptions stay inside the promise chain\<close>

text \<open>
  Claim C9. \<^verbatim>\<open>userProfile\<close> returns \<^verbatim>\<open>undefined\<close> to its caller in every case and
  raises nothing there (\<^verbatim>\<open>send\<close> returning a promise, as the SDK's does). Whenever the
  fulfilment handler raises an exception \<open>e\<close> while it processes the response, the
  rejection handler runs and the last invocation of the callback is \<^verbatim>\<open>(e, null)\<close>. In
  particular, for a response whose attribute list is missing or not iterable, the callback
  is invoked exactly once, with the \<^verbatim>\<open>TypeError\<close> of the iteration and \<^verbatim>\<open>null\<close>.
\<close>

theorem never_throws_synchronously:
  "fst (userProfile send tok cb w) = Inr Undefined \<and>
   (send (cognitoClient (self w)) (GetUserCommand tok) = Fulfilled r \<and>
    fst (on_fulfilled cb r w) = Inl e \<longrightarrow>
      length (calls w) < length (calls (snd (userProfile send tok cb w))) \<and>
      last (calls (snd (userProfile send tok cb w))) =
        \<lparr>call_err = Some e, call_profile = None\<rparr>) \<and>
   (send (cognitoClient (self w)) (GetUserCommand tok) = Fulfilled r \<and>
    r \<noteq> Undefined \<and> r \<noteq> Null \<and> iterate (read_prop r ''UserAttributes'') = Inl x \<longrightarrow>
      new_calls w (snd (userProfile send tok cb w)) =
        [\<lparr>call_err = Some TypeError, call_profile = None\<rparr>])"
proof -
  have a: "fst (userProfile send tok cb w) = Inr Undefined"
    using userProfile_cases [of send tok cb w] by (metis prod.collapse)
  have b: "length (calls w) < length (calls (snd (userProfile send tok cb w))) \<and>
      last (calls (snd (userProfile send tok cb w))) = \<lparr>call_err = Some e, call_profile = None\<rparr>"
    if sent: "send (cognitoClient (self w)) (GetUserCommand tok) = Fulfilled r"
      and raised: "fst (on_fulfilled cb r w) = Inl e"
  proof -
    obtain w1 where h: "on_fulfilled cb r w = (Inl e, w1)"
      using raised by (cases "on_fulfilled cb r w") simp
    from on_fulfilled_cases [OF h] have "length (calls w) \<le> length (calls w1)"
      by auto
    with userProfile_fulfilled_raises [of send w tok r cb e w1, OF sent h] show ?thesis
      by (simp split: sum.splits)
  qed
  have c: "new_calls w (snd (userProfile send tok cb w)) =
        [\<lparr>call_err = Some TypeError, call_profile = None\<rparr>]"
    if sent: "send (cognitoClient (self w)) (GetUserCommand tok) = Fulfilled r"
      and it: "iterate (read_prop r ''UserAttributes'') = Inl x"
  proof -
    from it have "unreadable r" by (simp add: unreadable_def)
    from on_fulfilled_unreadable [OF this, of cb w]
    obtain w1 where h: "on_fulfilled cb r w = (Inl TypeError, w1)" and c: "calls w1 = calls w"
      by blast
    from userProfile_fulfilled_raises [of send w tok r cb TypeError w1, OF sent h] c
    show ?thesis by (simp add: new_calls_def split: sum.splits)
  qed
  from a b c show ?thesis by blast
qed

theorem never_throws_synchronously_witness:
  "iterate (read_prop object_attributes_response ''UserAttributes'') = Inl TypeError \<and>
   fst (userProfile (\<lambda>c k. Fulfilled object_attributes_response) (Str ''tok-123'') returning
          example_world) = Inr Undefined \<and>
   new_calls example_world
     (snd (userProfile (\<lambda>c k. Fulfilled object_attributes_response) (Str ''tok-123'') returning
             example_world)) = [\<lparr>call_err = Some TypeError, call_profile = None\<rparr>]"
proof -
  let ?send = "\<lambda>(c::cognito_client) (k::command). Fulfilled object_attributes_response"
  have h: "?send (cognitoClient (self example_world)) (GetUserCommand (Str ''tok-123'')) =
             Fulfilled object_attributes_response"
    by simp
  have n: "object_attributes_response \<noteq> Undefined" "object_attributes_response \<noteq> Null"
    by (simp_all add: object_attributes_response_def)
  have i: "iterate (read_prop object_attributes_response ''UserAttributes'') = Inl TypeError"
    by (simp add: object_attributes_response_def read_prop_def)
  from never_throws_synchronously [of ?send "Str ''tok-123''" returning example_world
      object_attributes_response TypeError TypeError] h n i
  show ?thesis by blast
qed

section \<open>What an invocation leaves unchanged\<close>

text \<open>
  Claim C10. An invocation of \<^verbatim>\<open>userProfile\<close> leaves the Strategy instance as it was
  (its client, its name, its inherited OAuth2 state), changes no object that existed, and
  removes no earlier invocation of the callback. A profile it passes to the callback is a
  new object, created by this invocation. So, of two invocations in a row, the second
  leaves the instance and every object of the first as they were, and the profiles they
  pass to their callbacks are different objects.
\<close>

theorem userProfile_frame:
  assumes w': "w' = snd (userProfile send tok cb w)"
    and w'': "w'' = snd (userProfile send' tok' cb' w')"
  shows "self w' = self w \<and>
         take (length (heap w)) (heap w') = heap w \<and>
         take (length (calls w)) (calls w') = calls w \<and>
         (\<forall>c \<in> set (new_calls w w'). \<forall>a. call_profile c = Some a \<longrightarrow>
            a = length (heap w) \<and> a < length (heap w')) \<and>
         self w'' = self w \<and>
         (\<forall>a < length (heap w'). heap w'' ! a = heap w' ! a) \<and>
         (\<forall>c \<in> set (new_calls w w'). \<forall>d \<in> set (new_calls w' w'').
            \<forall>a b. call_profile c = Some a \<and> call_profile d = Some b \<longrightarrow> a \<noteq> b)"
proof -
  have fr: "self v' = self v \<and>
         take (length (heap v)) (heap v') = heap v \<and>
         take (length (calls v)) (calls v') = calls v \<and>
         (\<forall>c \<in> set (new_calls v v'). \<forall>a. call_profile c = Some a \<longrightarrow>
            a = length (heap v) \<and> a < length (heap v'))"
    if "v' = snd (userProfile s t k v)" for s t k and v v' :: "'a world"
  proof -
    from that have "userProfile s t k v = (fst (userProfile s t k v), v')" by simp
    from userProfile_cases [OF this] show ?thesis by auto
  qed
  note one = fr [OF w'] and two = fr [OF w'']
  have old: "heap w'' ! a = heap w' ! a" if "a < length (heap w')" for a
  proof -
    from two have "take (length (heap w')) (heap w'') = heap w'" by simp
    then have "take (length (heap w')) (heap w'') ! a = heap w' ! a" by simp
    with that show ?thesis by simp
  qed
  have fresh: "a \<noteq> b"
    if "c \<in> set (new_calls w w')" "d \<in> set (new_calls w' w'')"
      "call_profile c = Some a" "call_profile d = Some b" for c d a b
  proof -
    from one that(1,3) have "a < length (heap w')" by blast
    moreover from two that(2,4) have "b = length (heap w')" by blast
    ultimately show ?thesis by simp
  qed
  from one two old fresh show ?thesis by (simp (no_asm_simp))
qed

theorem userProfile_frame_witness:
  "self (snd (userProfile (\<lambda>c k. Fulfilled carol_response) (Str ''tok-456'') returning
           (snd (userProfile (\<lambda>c k. Fulfilled alice_response) (Str ''tok-123'') returning
                   example_world)))) = self example_world \<and>
   heap (snd (userProfile (\<lambda>c k. Fulfilled alice_response) (Str ''tok-123'') returning
               example_world)) =
     [object_literal [(''username'', Str ''alice''), (''email'', Str ''a2@x.com'')]] \<and>
   heap (snd (userProfile (\<lambda>c k. Fulfilled carol_response) (Str ''tok-456'') returning
           (snd (userProfile (\<lambda>c k. Fulfilled alice_response) (Str ''tok-123'') returning
                   example_world)))) ! 0 =
     object_literal [(''username'', Str ''alice''), (''email'', Str ''a2@x.com'')]"
proof -
  let ?s1 = "\<lambda>(c::cognito_client) (k::command). Fulfilled alice_response"
  let ?s2 = "\<lambda>(c::cognito_client) (k::command). Fulfilled carol_response"
  let ?w1 = "snd (userProfile ?s1 (Str ''tok-123'') returning example_world)"
  let ?w2 = "snd (userProfile ?s2 (Str ''tok-456'') returning ?w1)"
  have h: "heap ?w1 =
      [object_literal [(''username'', Str ''alice''), (''email'', Str ''a2@x.com'')]]"
    by (simp add: run_simps alice_response_def example_world_def returning_def)
  note t = userProfile_frame [of ?w1 ?s1 "Str ''tok-123''" returning example_world
      ?w2 ?s2 "Str ''tok-456''" returning, OF refl refl]
  from t have "self ?w2 = self example_world" by blast
  moreover from t h have "heap ?w2 ! 0 = heap ?w1 ! 0" by simp
  ultimately show ?thesis using h by simp
qed

end
